theory Spec2Isabelle
  imports Complex_Main "HOL-Library.Word"
begin

section \<open>The typing session of state.go\<close>

text \<open>
  A rune is Go's \<^verbatim>\<open>int32\<close>. The field \<^verbatim>\<open>Target\<close> is a Go string that state.go
  reads only through the conversion \<^verbatim>\<open>[]rune(s.Target)\<close>; the record holds that rune
  sequence. An instant of \<^verbatim>\<open>time.Time\<close> is counted in nanoseconds from the zero
  \<^verbatim>\<open>Time\<close>, which is the value of a field that was never assigned; a
  \<^verbatim>\<open>time.Duration\<close> is a number of nanoseconds.
\<close>

type_synonym rune = "32 word"
type_synonym time = int
type_synonym duration = int

record TestState =
  Target :: "rune list"
  Input :: "rune list"
  StartTime :: time
  EndTime :: time
  Started :: bool
  Finished :: bool
  TimedMode :: bool
  TimeLimitSec :: int
  WordCount :: int
  PipedText :: string

definition NewTestState :: "rune list \<Rightarrow> bool \<Rightarrow> int \<Rightarrow> int \<Rightarrow> TestState" where
  "NewTestState target timedMode timeLimitSec wordCount =
     \<lparr>Target = target, Input = [], StartTime = 0, EndTime = 0,
      Started = False, Finished = False,
      TimedMode = timedMode, TimeLimitSec = timeLimitSec, WordCount = wordCount,
      PipedText = []\<rparr>"

text \<open>
  Every call of \<^verbatim>\<open>time.Now()\<close> is an argument of the model. \<^verbatim>\<open>Finish\<close> reads the
  clock once; \<^verbatim>\<open>HandleChar\<close> reads it at line 39 (\<open>now\<close>) and, through
  \<^verbatim>\<open>Finish\<close>, at line 77 (\<open>now'\<close>).
\<close>

definition Finish :: "time \<Rightarrow> TestState \<Rightarrow> TestState" where
  "Finish now s =
     (if \<not> Finished s then s\<lparr>Finished := True, EndTime := now\<rparr> else s)"

definition HandleChar :: "time \<Rightarrow> time \<Rightarrow> rune \<Rightarrow> TestState \<Rightarrow> TestState" where
  "HandleChar now now' ch s =
     (if Finished s then s
      else
        let s1 = (if \<not> Started s then s\<lparr>Started := True, StartTime := now\<rparr> else s) in
        if length (Input s1) \<ge> length (Target s1) then s1
        else
          let s2 = s1\<lparr>Input := Input s1 @ [ch]\<rparr> in
          if \<not> TimedMode s2 \<and> length (Input s2) = length (Target s2)
          then Finish now' s2
          else s2)"

text \<open>
  The slice expression \<^verbatim>\<open>xs[:n]\<close> and the index expression \<^verbatim>\<open>xs[i]\<close> panic out
  of range; \<open>None\<close> is the panic. (A slice expression may reach into the capacity
  beyond the length; state.go only ever slices to \<^verbatim>\<open>len(xs)-1\<close>.)
\<close>

definition slice_upto :: "'a list \<Rightarrow> int \<Rightarrow> 'a list option" where
  "slice_upto xs n =
     (if 0 \<le> n \<and> n \<le> int (length xs) then Some (take (nat n) xs) else None)"

definition index_at :: "'a list \<Rightarrow> int \<Rightarrow> 'a option" where
  "index_at xs i =
     (if 0 \<le> i \<and> i < int (length xs) then Some (xs ! nat i) else None)"

definition space :: rune where
  "space = 32"

definition HandleBackspace :: "TestState \<Rightarrow> TestState option" where
  "HandleBackspace s =
     (if Finished s \<or> length (Input s) = 0 then Some s
      else case slice_upto (Input s) (int (length (Input s)) - 1) of
             None \<Rightarrow> None
           | Some inp \<Rightarrow> Some (s\<lparr>Input := inp\<rparr>))"

text \<open>The two loops of \<^verbatim>\<open>HandleDeleteWord\<close>, lines 65-67 and 69-71.\<close>

function delete_trailing_spaces :: "rune list \<Rightarrow> rune list option" where
  "delete_trailing_spaces inp =
     (if length inp > 0 then
        (case index_at inp (int (length inp) - 1) of
           None \<Rightarrow> None
         | Some c \<Rightarrow>
             if c = space then
               (case slice_upto inp (int (length inp) - 1) of
                  None \<Rightarrow> None
                | Some inp' \<Rightarrow> delete_trailing_spaces inp')
             else Some inp)
      else Some inp)"
  by pat_completeness auto
termination
  by (relation "measure length")
    (auto simp: slice_upto_def nat_diff_distrib' split: if_splits)

declare delete_trailing_spaces.simps [simp del]

function delete_until_space :: "rune list \<Rightarrow> rune list option" where
  "delete_until_space inp =
     (if length inp > 0 then
        (case index_at inp (int (length inp) - 1) of
           None \<Rightarrow> None
         | Some c \<Rightarrow>
             if c \<noteq> space then
               (case slice_upto inp (int (length inp) - 1) of
                  None \<Rightarrow> None
                | Some inp' \<Rightarrow> delete_until_space inp')
             else Some inp)
      else Some inp)"
  by pat_completeness auto
termination
  by (relation "measure length")
    (auto simp: slice_upto_def nat_diff_distrib' split: if_splits)

declare delete_until_space.simps [simp del]

definition HandleDeleteWord :: "TestState \<Rightarrow> TestState option" where
  "HandleDeleteWord s =
     (if Finished s \<or> length (Input s) = 0 then Some s
      else case delete_trailing_spaces (Input s) of
             None \<Rightarrow> None
           | Some inp1 \<Rightarrow>
               (case delete_until_space inp1 of
                  None \<Rightarrow> None
                | Some inp2 \<Rightarrow> Some (s\<lparr>Input := inp2\<rparr>)))"

text \<open>
  \<^verbatim>\<open>Time.Sub\<close> returns the difference of two instants, saturated to the range of a
  \<^verbatim>\<open>Duration\<close>; \<^verbatim>\<open>time.Since(t)\<close> is \<^verbatim>\<open>time.Now().Sub(t)\<close>.
\<close>

definition minDuration :: duration where
  "minDuration = - (2 ^ 63)"

definition maxDuration :: duration where
  "maxDuration = 2 ^ 63 - 1"

definition Sub :: "time \<Rightarrow> time \<Rightarrow> duration" where
  "Sub t u = (if t - u < minDuration then minDuration
              else if t - u > maxDuration then maxDuration
              else t - u)"

definition Elapsed :: "time \<Rightarrow> TestState \<Rightarrow> duration" where
  "Elapsed now s =
     (if \<not> Started s then 0
      else if Finished s then Sub (EndTime s) (StartTime s)
      else Sub now (StartTime s))"

text \<open>
  The loops of \<^verbatim>\<open>CorrectChars\<close> and \<^verbatim>\<open>WrongChars\<close>: \<open>i\<close> is the index of the
  \<^verbatim>\<open>range\<close> clause, the list is what remains of \<^verbatim>\<open>s.Input\<close>, \<open>count\<close> the counter.
\<close>

fun correct_loop :: "rune list \<Rightarrow> nat \<Rightarrow> rune list \<Rightarrow> nat \<Rightarrow> nat" where
  "correct_loop target i [] count = count"
| "correct_loop target i (ch # rest) count =
     correct_loop target (i + 1) rest
       (if i < length target \<and> ch = target ! i then count + 1 else count)"

fun wrong_loop :: "rune list \<Rightarrow> nat \<Rightarrow> rune list \<Rightarrow> nat \<Rightarrow> nat" where
  "wrong_loop target i [] count = count"
| "wrong_loop target i (ch # rest) count =
     wrong_loop target (i + 1) rest
       (if i < length target \<and> ch \<noteq> target ! i then count + 1 else count)"

definition CorrectChars :: "TestState \<Rightarrow> nat" where
  "CorrectChars s = correct_loop (Target s) 0 (Input s) 0"

definition WrongChars :: "TestState \<Rightarrow> nat" where
  "WrongChars s = wrong_loop (Target s) 0 (Input s) 0"

text \<open>
  The arithmetic of \<^verbatim>\<open>float64\<close> and \<^verbatim>\<open>Duration.Minutes\<close> belong to the language
  and its library. They are parameters of the model: \<open>'f\<close> is the type of
  \<^verbatim>\<open>float64\<close> values, \<open>f_of_int\<close> the conversion \<^verbatim>\<open>float64(n)\<close> (also of an
  integer constant), \<open>f_div\<close> and \<open>f_mul\<close> the operators \<^verbatim>\<open>/\<close> and \<^verbatim>\<open>*\<close>,
  \<open>f_eq\<close> the comparison \<^verbatim>\<open>==\<close>. What is proved of \<^verbatim>\<open>WPM\<close> and \<^verbatim>\<open>Accuracy\<close>
  holds for every such arithmetic.
\<close>

record 'f float64_ops =
  f_of_int :: "int \<Rightarrow> 'f"
  f_div :: "'f \<Rightarrow> 'f \<Rightarrow> 'f"
  f_mul :: "'f \<Rightarrow> 'f \<Rightarrow> 'f"
  f_eq :: "'f \<Rightarrow> 'f \<Rightarrow> bool"
  Minutes :: "duration \<Rightarrow> 'f"

definition WPM :: "'f float64_ops \<Rightarrow> time \<Rightarrow> TestState \<Rightarrow> 'f" where
  "WPM F now s =
     (let elapsed = Minutes F (Elapsed now s) in
      if f_eq F elapsed (f_of_int F 0) then f_of_int F 0
      else f_div F (f_div F (f_of_int F (int (CorrectChars s))) (f_of_int F 5)) elapsed)"

definition Accuracy :: "'f float64_ops \<Rightarrow> TestState \<Rightarrow> 'f" where
  "Accuracy F s =
     (let total = length (Input s) in
      if total = 0 then f_of_int F 100
      else f_mul F (f_div F (f_of_int F (int (CorrectChars s))) (f_of_int F (int total)))
             (f_of_int F 100))"

text \<open>The exact arithmetic of the reals, to evaluate the two metrics on examples.\<close>

definition real_ops :: "real float64_ops" where
  "real_ops = \<lparr>f_of_int = real_of_int, f_div = (/), f_mul = (*), f_eq = (=),
               Minutes = (\<lambda>d. real_of_int d / 60000000000)\<rparr>"

text \<open>
  The calls that the presentation layer and the countdown make on a session, each with
  the clock readings it takes, and a run of them from a given state.
\<close>

datatype event = TypeChar time time rune | Backspace | DeleteWord | FinishNow time

fun apply_event :: "event \<Rightarrow> TestState \<Rightarrow> TestState option" where
  "apply_event (TypeChar now now' ch) s = Some (HandleChar now now' ch s)"
| "apply_event Backspace s = HandleBackspace s"
| "apply_event DeleteWord s = HandleDeleteWord s"
| "apply_event (FinishNow now) s = Some (Finish now s)"

fun run_events :: "event list \<Rightarrow> TestState \<Rightarrow> TestState option" where
  "run_events [] s = Some s"
| "run_events (e # es) s =
     (case apply_event e s of None \<Rightarrow> None | Some s' \<Rightarrow> run_events es s')"

text \<open>The runes of an ASCII string literal, as \<^verbatim>\<open>[]rune("...")\<close> gives them.\<close>

definition runes :: "string \<Rightarrow> rune list" where
  "runes str = map (\<lambda>c. of_nat (of_char c)) str"

text \<open>A run of \<^verbatim>\<open>HandleChar\<close> calls alone, and the characters they pass.\<close>

fun HandleChars :: "(time \<times> time \<times> rune) list \<Rightarrow> TestState \<Rightarrow> TestState" where
  "HandleChars [] s = s"
| "HandleChars ((now, now', ch) # rest) s = HandleChars rest (HandleChar now now' ch s)"

definition typed :: "(time \<times> time \<times> rune) list \<Rightarrow> rune list" where
  "typed cs = map (\<lambda>(now, now', ch). ch) cs"

fun is_FinishNow :: "event \<Rightarrow> bool" where
  "is_FinishNow (FinishNow now) = True"
| "is_FinishNow e = False"

subsection \<open>The specification's wording of deleteWord\<close>

text \<open>
  Section 4.1 of the specification: from the end of the buffer, all space characters
  are removed, then all characters that are not a space, up to the first space met or
  the start of the buffer.
\<close>

definition spec_deleteWord :: "rune list \<Rightarrow> rune list" where
  "spec_deleteWord inp =
     rev (dropWhile (\<lambda>c. c \<noteq> space) (dropWhile (\<lambda>c. c = space) (rev inp)))"

section \<open>The operations, one call at a time\<close>

lemma slice_upto_pred:
  "xs \<noteq> [] \<Longrightarrow> slice_upto xs (int (length xs) - 1) = Some (butlast xs)"
  by (simp add: slice_upto_def butlast_conv_take nat_diff_distrib')

lemma index_at_last:
  "xs \<noteq> [] \<Longrightarrow> index_at xs (int (length xs) - 1) = Some (last xs)"
  by (simp add: index_at_def last_conv_nth nat_diff_distrib')

lemma delete_trailing_spaces_snoc:
  "delete_trailing_spaces (xs @ [x]) =
     (if x = space then delete_trailing_spaces xs else Some (xs @ [x]))"
  by (subst delete_trailing_spaces.simps) (simp add: slice_upto_def index_at_def)

lemma delete_until_space_snoc:
  "delete_until_space (xs @ [x]) =
     (if x \<noteq> space then delete_until_space xs else Some (xs @ [x]))"
  by (subst delete_until_space.simps) (simp add: slice_upto_def index_at_def)

lemma delete_trailing_spaces_eq:
  "delete_trailing_spaces inp = Some (rev (dropWhile (\<lambda>c. c = space) (rev inp)))"
proof (induction inp rule: rev_induct)
  case Nil
  show ?case by (subst delete_trailing_spaces.simps) simp
next
  case (snoc x xs)
  then show ?case by (simp add: delete_trailing_spaces_snoc)
qed

lemma delete_until_space_eq:
  "delete_until_space inp = Some (rev (dropWhile (\<lambda>c. c \<noteq> space) (rev inp)))"
proof (induction inp rule: rev_induct)
  case Nil
  show ?case by (subst delete_until_space.simps) simp
next
  case (snoc x xs)
  then show ?case by (simp add: delete_until_space_snoc)
qed

lemma HandleBackspace_eq:
  "HandleBackspace s =
     Some (if Finished s \<or> Input s = [] then s else s\<lparr>Input := butlast (Input s)\<rparr>)"
  by (simp add: HandleBackspace_def slice_upto_pred)

lemma HandleDeleteWord_eq:
  "HandleDeleteWord s =
     Some (if Finished s \<or> Input s = [] then s else s\<lparr>Input := spec_deleteWord (Input s)\<rparr>)"
  by (simp add: HandleDeleteWord_def delete_trailing_spaces_eq delete_until_space_eq
      spec_deleteWord_def)

lemma length_spec_deleteWord: "length (spec_deleteWord inp) \<le> length inp"
  unfolding spec_deleteWord_def
  by (metis length_rev length_dropWhile_le le_trans)

lemma HandleChar_Input:
  "Input (HandleChar now now' ch s) =
     (if Finished s \<or> length (Target s) \<le> length (Input s) then Input s
      else Input s @ [ch])"
  by (simp add: HandleChar_def Finish_def Let_def)

lemma HandleChar_Finished:
  "Finished (HandleChar now now' ch s) \<longleftrightarrow>
     Finished s \<or>
     (\<not> TimedMode s \<and> Suc (length (Input s)) = length (Target s))"
  by (auto simp add: HandleChar_def Finish_def Let_def)

lemma HandleChar_fixed:
  "Target (HandleChar now now' ch s) = Target s"
  "TimedMode (HandleChar now now' ch s) = TimedMode s"
  by (simp_all add: HandleChar_def Finish_def Let_def)

lemma HandleChar_Finished_id: "Finished s \<Longrightarrow> HandleChar now now' ch s = s"
  by (simp add: HandleChar_def)

lemma Finish_fields:
  "Finished (Finish now s)"
  "Target (Finish now s) = Target s"
  "TimedMode (Finish now s) = TimedMode s"
  "Input (Finish now s) = Input s"
  by (simp_all add: Finish_def)

lemma Finish_Finished_id: "Finished s \<Longrightarrow> Finish now s = s"
  by (simp add: Finish_def)

lemma apply_event_total: "\<exists>s'. apply_event e s = Some s'"
  by (cases e) (simp_all add: HandleBackspace_eq HandleDeleteWord_eq)

lemma apply_event_Finished_id: "Finished s \<Longrightarrow> apply_event e s = Some s"
  by (cases e)
    (simp_all add: HandleBackspace_eq HandleDeleteWord_eq HandleChar_Finished_id
      Finish_Finished_id)

lemma apply_event_fixed:
  assumes "apply_event e s = Some s'"
  shows "Target s' = Target s" and "TimedMode s' = TimedMode s"
  using assms
  by (cases e; auto simp: HandleBackspace_eq HandleDeleteWord_eq HandleChar_fixed
      Finish_fields split: if_splits)+

lemma apply_event_length:
  assumes "apply_event e s = Some s'" and "length (Input s) \<le> length (Target s)"
  shows "length (Input s') \<le> length (Target s')"
proof (cases e)
  case (TypeChar now now' ch)
  with assms show ?thesis
    by (auto simp: HandleChar_Input HandleChar_fixed)
next
  case Backspace
  with assms show ?thesis
    by (auto simp: HandleBackspace_eq split: if_splits)
next
  case DeleteWord
  with assms length_spec_deleteWord [of "Input s"] show ?thesis
    by (auto simp: HandleDeleteWord_eq split: if_splits)
next
  case (FinishNow now)
  with assms show ?thesis
    by (auto simp: Finish_fields)
qed

lemma run_events_total: "\<exists>s'. run_events es s = Some s'"
proof (induction es arbitrary: s)
  case Nil
  show ?case by simp
next
  case (Cons e es)
  obtain s1 where "apply_event e s = Some s1"
    using apply_event_total by blast
  with Cons show ?case by simp
qed

lemma run_events_Finished_id: "Finished s \<Longrightarrow> run_events es s = Some s"
  by (induction es) (simp_all add: apply_event_Finished_id)

lemma run_events_fixed:
  "run_events es s = Some s' \<Longrightarrow> Target s' = Target s \<and> TimedMode s' = TimedMode s"
proof (induction es arbitrary: s)
  case Nil
  then show ?case by simp
next
  case (Cons e es)
  then obtain s1 where e: "apply_event e s = Some s1" and r: "run_events es s1 = Some s'"
    by (auto split: option.splits)
  from Cons.IH [OF r] apply_event_fixed [OF e] show ?case by simp
qed

lemma run_events_length:
  "run_events es s = Some s' \<Longrightarrow> length (Input s) \<le> length (Target s)
     \<Longrightarrow> length (Input s') \<le> length (Target s')"
proof (induction es arbitrary: s)
  case Nil
  then show ?case by simp
next
  case (Cons e es)
  then obtain s1 where e: "apply_event e s = Some s1" and r: "run_events es s1 = Some s'"
    by (auto split: option.splits)
  from apply_event_length [OF e Cons.prems(2)] Cons.IH [OF r] show ?case by simp
qed

section \<open>Runs of calls\<close>

lemma HandleChars_Finished_id: "Finished s \<Longrightarrow> HandleChars cs s = s"
  by (induction cs s rule: HandleChars.induct) (simp_all add: HandleChar_Finished_id)

lemma HandleChars_Input:
  "\<not> Finished s \<Longrightarrow>
     Input (HandleChars cs s) =
       Input s @ take (length (Target s) - length (Input s)) (typed cs)"
proof (induction cs s rule: HandleChars.induct)
  case (1 s)
  show ?case by (simp add: typed_def)
next
  case (2 now now' ch rest s)
  let ?s1 = "HandleChar now now' ch s"
  show ?case
  proof (cases "Finished ?s1")
    case True
    with "2.prems" have "Suc (length (Input s)) = length (Target s)"
      by (simp add: HandleChar_Finished)
    then have "length (Target s) - length (Input s) = Suc 0"
      by simp
    with True "2.prems" show ?thesis
      by (simp add: HandleChars_Finished_id HandleChar_Input typed_def)
  next
    case False
    show ?thesis
    proof (cases "length (Target s) \<le> length (Input s)")
      case True
      with "2.IH" [OF False] "2.prems" show ?thesis
        by (simp add: HandleChar_Input HandleChar_fixed)
    next
      case notfull: False
      then have "length (Target s) - length (Input s) =
          Suc (length (Target s) - Suc (length (Input s)))"
        by simp
      with "2.IH" [OF False] "2.prems" notfull show ?thesis
        by (simp add: HandleChar_Input HandleChar_fixed typed_def)
    qed
  qed
qed

lemma HandleChars_Finished:
  "\<not> TimedMode s \<Longrightarrow> \<not> Finished s \<Longrightarrow> length (Input s) < length (Target s) \<Longrightarrow>
     Finished (HandleChars cs s) \<longleftrightarrow> length (Target s) \<le> length (Input s) + length cs"
proof (induction cs s rule: HandleChars.induct)
  case (1 s)
  then show ?case by simp
next
  case (2 now now' ch rest s)
  let ?s1 = "HandleChar now now' ch s"
  show ?case
  proof (cases "Suc (length (Input s)) = length (Target s)")
    case True
    with "2.prems" have "Finished ?s1"
      by (simp add: HandleChar_Finished)
    with True show ?thesis
      by (simp add: HandleChars_Finished_id)
  next
    case False
    with "2.prems" have "\<not> TimedMode ?s1" "\<not> Finished ?s1"
      "length (Input ?s1) < length (Target ?s1)"
      by (simp_all add: HandleChar_Finished HandleChar_fixed HandleChar_Input)
    from "2.IH" [OF this] "2.prems" show ?thesis
      by (simp add: HandleChar_fixed HandleChar_Input)
  qed
qed

lemma apply_event_unfilled:
  assumes e: "apply_event e s = Some s'"
    and J: "\<not> Finished s \<longrightarrow> \<not> TimedMode s \<longrightarrow> length (Input s) < length (Target s)"
  shows "\<not> Finished s' \<longrightarrow> \<not> TimedMode s' \<longrightarrow> length (Input s') < length (Target s')"
proof (cases e)
  case (TypeChar now now' ch)
  with e J show ?thesis
    by (auto simp: HandleChar_Finished HandleChar_fixed HandleChar_Input)
next
  case Backspace
  with e J show ?thesis
    by (auto simp: HandleBackspace_eq split: if_splits)
next
  case DeleteWord
  with e J length_spec_deleteWord [of "Input s"] show ?thesis
    by (auto simp: HandleDeleteWord_eq split: if_splits)
next
  case (FinishNow now)
  with e show ?thesis
    by (auto simp: Finish_fields)
qed

lemma run_events_unfilled:
  "run_events es s = Some s' \<Longrightarrow>
   (\<not> Finished s \<longrightarrow> \<not> TimedMode s \<longrightarrow> length (Input s) < length (Target s)) \<Longrightarrow>
   (\<not> Finished s' \<longrightarrow> \<not> TimedMode s' \<longrightarrow> length (Input s') < length (Target s'))"
proof (induction es arbitrary: s)
  case Nil
  then show ?case by simp
next
  case (Cons e es)
  then obtain s1 where e: "apply_event e s = Some s1" and r: "run_events es s1 = Some s'"
    by (auto split: option.splits)
  from Cons.IH [OF r apply_event_unfilled [OF e Cons.prems(2)]] show ?case .
qed

lemma apply_event_timed:
  assumes "apply_event e s = Some s'" and "TimedMode s" and "\<not> Finished s"
    and "\<not> is_FinishNow e"
  shows "\<not> Finished s'"
  using assms
  by (cases e)
    (auto simp: HandleChar_Finished HandleBackspace_eq HandleDeleteWord_eq
      split: if_splits)

lemma run_events_timed:
  "run_events es s = Some s' \<Longrightarrow> TimedMode s \<Longrightarrow> \<not> Finished s \<Longrightarrow>
   \<forall>e \<in> set es. \<not> is_FinishNow e \<Longrightarrow> \<not> Finished s'"
proof (induction es arbitrary: s)
  case Nil
  then show ?case by simp
next
  case (Cons e es)
  then obtain s1 where e: "apply_event e s = Some s1" and r: "run_events es s1 = Some s'"
    by (auto split: option.splits)
  have "\<not> Finished s1"
    using apply_event_timed [OF e Cons.prems(2,3)] Cons.prems(4) by simp
  moreover have "TimedMode s1"
    using apply_event_fixed(2) [OF e] Cons.prems(2) by simp
  ultimately show ?case
    using Cons.IH [OF r] Cons.prems(4) by simp
qed

section \<open>The two counters\<close>

lemma correct_loop_zip:
  "correct_loop target i rest count =
     count + length (filter (\<lambda>(a, b). a = b) (zip rest (drop i target)))"
proof (induction rest arbitrary: i count)
  case Nil
  show ?case by simp
next
  case (Cons ch rest)
  show ?case
  proof (cases "i < length target")
    case True
    then have "drop i target = target ! i # drop (Suc i) target"
      by (simp add: Cons_nth_drop_Suc)
    with True Cons.IH [of "Suc i"] show ?thesis by simp
  next
    case False
    with Cons.IH [of "Suc i"] show ?thesis by simp
  qed
qed

lemma wrong_loop_zip:
  "wrong_loop target i rest count =
     count + length (filter (\<lambda>(a, b). a \<noteq> b) (zip rest (drop i target)))"
proof (induction rest arbitrary: i count)
  case Nil
  show ?case by simp
next
  case (Cons ch rest)
  show ?case
  proof (cases "i < length target")
    case True
    then have "drop i target = target ! i # drop (Suc i) target"
      by (simp add: Cons_nth_drop_Suc)
    with True Cons.IH [of "Suc i"] show ?thesis by simp
  next
    case False
    with Cons.IH [of "Suc i"] show ?thesis by simp
  qed
qed

lemma filter_zip_card:
  "length (filter (\<lambda>(a, b). P a b) (zip xs ys)) =
     card {i. i < length xs \<and> i < length ys \<and> P (xs ! i) (ys ! i)}"
proof -
  have "{i. i < length (zip xs ys) \<and> (\<lambda>(a, b). P a b) (zip xs ys ! i)} =
        {i. i < length xs \<and> i < length ys \<and> P (xs ! i) (ys ! i)}"
    by auto
  then show ?thesis
    by (simp only: length_filter_conv_card)
qed

lemma CorrectChars_card:
  "CorrectChars s =
     card {i. i < length (Input s) \<and> i < length (Target s) \<and> Input s ! i = Target s ! i}"
  by (simp add: CorrectChars_def correct_loop_zip filter_zip_card)

lemma WrongChars_card:
  "WrongChars s =
     card {i. i < length (Input s) \<and> i < length (Target s) \<and> Input s ! i \<noteq> Target s ! i}"
  by (simp add: WrongChars_def wrong_loop_zip filter_zip_card)

lemma Correct_plus_Wrong:
  "CorrectChars s + WrongChars s = min (length (Input s)) (length (Target s))"
proof -
  have "(\<lambda>(a, b). a \<noteq> b) = (\<lambda>x :: rune \<times> rune. \<not> (\<lambda>(a, b). a = b) x)"
    by auto
  then have "CorrectChars s + WrongChars s = length (zip (Input s) (Target s))"
    by (simp only: CorrectChars_def WrongChars_def correct_loop_zip wrong_loop_zip
        drop_0 add_0 sum_length_filter_compl)
  then show ?thesis by simp
qed

section \<open>The claims\<close>

text \<open>
  C4. \<^verbatim>\<open>Finished\<close> is terminal. On a finished session \<^verbatim>\<open>HandleChar\<close>,
  \<^verbatim>\<open>HandleBackspace\<close>, \<^verbatim>\<open>HandleDeleteWord\<close> and \<^verbatim>\<open>Finish\<close> return the state as it
  was, and so does every run of them, so that \<^verbatim>\<open>EndTime\<close> stays what it was.
  \<^verbatim>\<open>Finish\<close> always leaves the session finished, sets \<^verbatim>\<open>EndTime\<close> to the clock only
  when the session was not finished before, and a second \<^verbatim>\<open>Finish\<close> changes nothing.
\<close>

theorem finished_is_terminal:
  "(Finished s \<longrightarrow>
      HandleChar now now' ch s = s \<and> HandleBackspace s = Some s \<and>
      HandleDeleteWord s = Some s \<and> Finish now s = s \<and> run_events es s = Some s) \<and>
   Finished (Finish now1 s) \<and>
   EndTime (Finish now1 s) = (if Finished s then EndTime s else now1) \<and>
   Finish now2 (Finish now1 s) = Finish now1 s"
proof -
  have "Finish now2 (Finish now1 s) = Finish now1 s"
    by (rule Finish_Finished_id) (rule Finish_fields(1))
  moreover have "EndTime (Finish now1 s) = (if Finished s then EndTime s else now1)"
    by (simp add: Finish_def)
  moreover have "Finished s \<Longrightarrow> HandleBackspace s = Some s"
    by (simp add: HandleBackspace_eq)
  moreover have "Finished s \<Longrightarrow> HandleDeleteWord s = Some s"
    by (simp add: HandleDeleteWord_eq)
  ultimately show ?thesis
    by (simp add: HandleChar_Finished_id Finish_Finished_id run_events_Finished_id
        Finish_fields(1))
qed

theorem finished_is_terminal_witness:
  "Finished (Finish 9 (NewTestState [97, 98] True 30 0)) \<and>
   run_events [TypeChar 10 11 98, Backspace, DeleteWord, FinishNow 12]
     (Finish 9 (NewTestState [97, 98] True 30 0))
     = Some (Finish 9 (NewTestState [97, 98] True 30 0)) \<and>
   EndTime (Finish 9 (NewTestState [97, 98] True 30 0)) = 9"
  using finished_is_terminal [where s = "Finish 9 (NewTestState [97, 98] True 30 0)"
      and es = "[TypeChar 10 11 98, Backspace, DeleteWord, FinishNow 12]"]
  by (simp add: Finish_def NewTestState_def)

text \<open>
  C3. The length of \<^verbatim>\<open>Input\<close> never exceeds the rune length of \<^verbatim>\<open>Target\<close>. Every
  operation returns a state (no slice or index expression panics, so the buffer is
  never cut below length zero), keeps the target, and keeps the bound when it held
  before; and every run of operations from \<^verbatim>\<open>NewTestState\<close> ends in a state within
  the bound.
\<close>

theorem input_length_invariant:
  "(\<exists>s'. apply_event e s = Some s' \<and> Target s' = Target s \<and>
         (length (Input s) \<le> length (Target s) \<longrightarrow>
            length (Input s') \<le> length (Target s'))) \<and>
   (\<exists>s'. run_events es (NewTestState target timedMode timeLimitSec wordCount) = Some s' \<and>
         Target s' = target \<and> length (Input s') \<le> length target)"
proof
  obtain s1 where s1: "apply_event e s = Some s1"
    using apply_event_total by blast
  with apply_event_fixed(1) [OF s1] apply_event_length [OF s1]
  show "\<exists>s'. apply_event e s = Some s' \<and> Target s' = Target s \<and>
         (length (Input s) \<le> length (Target s) \<longrightarrow>
            length (Input s') \<le> length (Target s'))"
    by simp
next
  let ?s0 = "NewTestState target timedMode timeLimitSec wordCount"
  obtain s2 where s2: "run_events es ?s0 = Some s2"
    using run_events_total by blast
  have "Target s2 = target"
    using run_events_fixed [OF s2] by (simp add: NewTestState_def)
  moreover have "length (Input s2) \<le> length (Target s2)"
    by (rule run_events_length [OF s2]) (simp add: NewTestState_def)
  ultimately show "\<exists>s'. run_events es ?s0 = Some s' \<and>
         Target s' = target \<and> length (Input s') \<le> length target"
    using s2 by simp
qed

theorem input_length_invariant_witness:
  "length (Input (NewTestState [97, 98] False 0 1)) \<le>
     length (Target (NewTestState [97, 98] False 0 1)) \<and>
   apply_event Backspace (NewTestState [97, 98] False 0 1)
     = Some (NewTestState [97, 98] False 0 1) \<and>
   length (Input (HandleChar 1 2 97 (NewTestState [97, 98] False 0 1))) \<le> 2"
  using input_length_invariant [where e = "TypeChar 1 2 97"
      and s = "NewTestState [97, 98] False 0 1"]
  by (simp add: NewTestState_def HandleBackspace_def HandleChar_def)

text \<open>
  C2. In a state whose input is no longer than the target, \<^verbatim>\<open>HandleChar\<close> leaves
  \<^verbatim>\<open>Input\<close> as it was when the session is finished or the input is already as long
  as the target, and otherwise appends the character as given, whatever the target
  holds at that position. From a fresh session, calls that pass no more characters than
  the target has runes are all accepted: \<^verbatim>\<open>Input\<close> is the sequence of the characters
  passed, in order, and its length is the number of calls. (Whatever the number of
  calls, \<^verbatim>\<open>Input\<close> is the first \<^verbatim>\<open>len(target)\<close> characters passed.)
\<close>

theorem typeChar_appends_verbatim:
  "(length (Input s) \<le> length (Target s) \<longrightarrow>
      Input (HandleChar now now' ch s) =
        (if Finished s \<or> length (Input s) = length (Target s) then Input s
         else Input s @ [ch])) \<and>
   (length cs \<le> length target \<longrightarrow>
      Input (HandleChars cs (NewTestState target timedMode timeLimitSec wordCount))
        = typed cs \<and>
      length (Input (HandleChars cs (NewTestState target timedMode timeLimitSec wordCount)))
        = length cs) \<and>
   Input (HandleChars cs (NewTestState target timedMode timeLimitSec wordCount))
     = take (length target) (typed cs)"
proof -
  let ?s0 = "NewTestState target timedMode timeLimitSec wordCount"
  have "\<not> Finished ?s0" and "Input ?s0 = []" and "Target ?s0 = target"
    by (simp_all add: NewTestState_def)
  then have run: "Input (HandleChars cs ?s0) = take (length target) (typed cs)"
    using HandleChars_Input [of ?s0 cs] by simp
  moreover have "length (typed cs) = length cs"
    by (simp add: typed_def)
  ultimately have "length cs \<le> length target \<Longrightarrow>
      Input (HandleChars cs ?s0) = typed cs \<and> length (Input (HandleChars cs ?s0)) = length cs"
    by simp
  with run show ?thesis
    by (auto simp: HandleChar_Input)
qed

theorem typeChar_appends_verbatim_witness:
  "length (Input (NewTestState [97, 98, 99] False 0 1))
     \<le> length (Target (NewTestState [97, 98, 99] False 0 1)) \<and>
   Input (HandleChar 1 2 120 (NewTestState [97, 98, 99] False 0 1)) = [120] \<and>
   length [(1, 2, 120), (3, 4, 98 :: rune)] \<le> length [97, 98, 99 :: rune] \<and>
   Input (HandleChars [(1, 2, 120), (3, 4, 98)] (NewTestState [97, 98, 99] False 0 1))
     = [120, 98]"
  using typeChar_appends_verbatim [where s = "NewTestState [97, 98, 99] False 0 1"
      and now = 1 and now' = 2 and ch = 120
      and cs = "[(1, 2, 120), (3, 4, 98)]" and target = "[97, 98, 99]"
      and timedMode = False and timeLimitSec = 0 and wordCount = 1]
  by (simp add: NewTestState_def typed_def)

text \<open>
  C1. Completion depends only on the mode. In every unfinished state that a session
  with a non-empty target reaches, \<^verbatim>\<open>HandleChar\<close> finishes the session exactly when
  the session is not timed and the call brings the input to the length of the target;
  a fresh non-timed session is finished by a run of \<^verbatim>\<open>HandleChar\<close> calls exactly
  when there are at least as many calls as the target has runes. A timed session is not
  finished by \<^verbatim>\<open>HandleChar\<close>, nor by any run of calls without \<^verbatim>\<open>Finish\<close>;
  \<^verbatim>\<open>Finish\<close> finishes every session.
\<close>

theorem completion_depends_on_mode:
  "(target \<noteq> [] \<and>
    run_events es (NewTestState target timedMode timeLimitSec wordCount) = Some s \<and>
    \<not> Finished s \<longrightarrow>
      (Finished (HandleChar now now' ch s) \<longleftrightarrow>
         \<not> TimedMode s \<and> length (Input (HandleChar now now' ch s)) = length (Target s))) \<and>
   (target \<noteq> [] \<longrightarrow>
      (Finished (HandleChars cs (NewTestState target False timeLimitSec wordCount)) \<longleftrightarrow>
         length target \<le> length cs)) \<and>
   (TimedMode st \<and> \<not> Finished st \<longrightarrow> \<not> Finished (HandleChar now now' ch st)) \<and>
   ((\<forall>e \<in> set es'. \<not> is_FinishNow e) \<and>
    run_events es' (NewTestState target True timeLimitSec wordCount) = Some sr \<longrightarrow>
      \<not> Finished sr) \<and>
   Finished (Finish now sf)"
proof (intro conjI impI)
  let ?s0 = "NewTestState target timedMode timeLimitSec wordCount"
  assume a: "target \<noteq> [] \<and> run_events es ?s0 = Some s \<and> \<not> Finished s"
  then have r: "run_events es ?s0 = Some s" and nf: "\<not> Finished s" and ne: "target \<noteq> []"
    by simp_all
  have "\<not> Finished ?s0 \<longrightarrow> \<not> TimedMode ?s0 \<longrightarrow> length (Input ?s0) < length (Target ?s0)"
    using ne by (simp add: NewTestState_def)
  from run_events_unfilled [OF r this] nf
  have "\<not> TimedMode s \<longrightarrow> length (Input s) < length (Target s)"
    by simp
  with nf show "Finished (HandleChar now now' ch s) \<longleftrightarrow>
      \<not> TimedMode s \<and> length (Input (HandleChar now now' ch s)) = length (Target s)"
    by (auto simp: HandleChar_Finished HandleChar_Input)
next
  let ?s0 = "NewTestState target False timeLimitSec wordCount"
  assume "target \<noteq> []"
  then have "\<not> TimedMode ?s0" "\<not> Finished ?s0" "length (Input ?s0) < length (Target ?s0)"
    by (simp_all add: NewTestState_def)
  from HandleChars_Finished [OF this]
  show "Finished (HandleChars cs ?s0) \<longleftrightarrow> length target \<le> length cs"
    by (simp add: NewTestState_def)
next
  assume "TimedMode st \<and> \<not> Finished st"
  then show "\<not> Finished (HandleChar now now' ch st)"
    by (simp add: HandleChar_Finished)
next
  let ?s0 = "NewTestState target True timeLimitSec wordCount"
  assume a: "(\<forall>e \<in> set es'. \<not> is_FinishNow e) \<and> run_events es' ?s0 = Some sr"
  then have r: "run_events es' ?s0 = Some sr" and n: "\<forall>e \<in> set es'. \<not> is_FinishNow e"
    by simp_all
  show "\<not> Finished sr"
    by (rule run_events_timed [OF r _ _ n]) (simp_all add: NewTestState_def)
next
  show "Finished (Finish now sf)"
    by (rule Finish_fields(1))
qed

theorem completion_depends_on_mode_witness:
  "[97, 98 :: rune] \<noteq> [] \<and>
   run_events [TypeChar 1 2 97] (NewTestState [97, 98] False 0 1)
     = Some (HandleChar 1 2 97 (NewTestState [97, 98] False 0 1)) \<and>
   \<not> Finished (HandleChar 1 2 97 (NewTestState [97, 98] False 0 1)) \<and>
   Finished (HandleChar 3 4 120 (HandleChar 1 2 97 (NewTestState [97, 98] False 0 1))) \<and>
   Finished (HandleChars [(1, 2, 97), (3, 4, 120)] (NewTestState [97, 98] False 0 1)) \<and>
   TimedMode (HandleChar 1 2 97 (NewTestState [97, 98] True 0 1)) \<and>
   \<not> Finished (HandleChar 1 2 97 (NewTestState [97, 98] True 0 1)) \<and>
   \<not> Finished (HandleChar 3 4 120 (HandleChar 1 2 97 (NewTestState [97, 98] True 0 1))) \<and>
   \<not> is_FinishNow (TypeChar 1 2 97) \<and> \<not> is_FinishNow (TypeChar 3 4 120) \<and>
   \<not> is_FinishNow (TypeChar 5 6 98) \<and>
   run_events [TypeChar 1 2 97, TypeChar 3 4 120, TypeChar 5 6 98]
     (NewTestState [97, 98] True 0 1)
     = Some (HandleChar 3 4 120 (HandleChar 1 2 97 (NewTestState [97, 98] True 0 1)))"
  using completion_depends_on_mode [where target = "[97, 98]" and timedMode = False
      and timeLimitSec = 0 and wordCount = 1 and es = "[TypeChar 1 2 97]"
      and s = "HandleChar 1 2 97 (NewTestState [97, 98] False 0 1)"
      and now = 3 and now' = 4 and ch = 120
      and cs = "[(1, 2, 97), (3, 4, 120)]"
      and st = "HandleChar 1 2 97 (NewTestState [97, 98] True 0 1)"
      and es' = "[TypeChar 1 2 97, TypeChar 3 4 120, TypeChar 5 6 98]"
      and sr = "HandleChar 3 4 120 (HandleChar 1 2 97 (NewTestState [97, 98] True 0 1))"]
  by (simp add: NewTestState_def HandleChar_def Finish_def)

text \<open>
  C5. \<^verbatim>\<open>CorrectChars\<close> is the number of positions \<open>i\<close> below the length of the input
  and below the length of the target at which input and target hold the same rune;
  \<^verbatim>\<open>WrongChars\<close> is the number of those at which they differ. With target
  \<^verbatim>\<open>"abc"\<close> and the characters \<^verbatim>\<open>a\<close>, \<^verbatim>\<open>b\<close>, \<^verbatim>\<open>d\<close> typed, the input is
  \<^verbatim>\<open>"abd"\<close>, two characters are correct and one is wrong.
\<close>

theorem counts_by_position:
  "CorrectChars s =
     card {i. i < length (Input s) \<and> i < length (Target s) \<and> Input s ! i = Target s ! i} \<and>
   WrongChars s =
     card {i. i < length (Input s) \<and> i < length (Target s) \<and> Input s ! i \<noteq> Target s ! i} \<and>
   Input (HandleChars [(1, 1, 97), (2, 2, 98), (3, 4, 100)]
            (NewTestState (runes ''abc'') False 0 1)) = runes ''abd'' \<and>
   CorrectChars (HandleChars [(1, 1, 97), (2, 2, 98), (3, 4, 100)]
                   (NewTestState (runes ''abc'') False 0 1)) = 2 \<and>
   WrongChars (HandleChars [(1, 1, 97), (2, 2, 98), (3, 4, 100)]
                 (NewTestState (runes ''abc'') False 0 1)) = 1"
proof -
  let ?s = "HandleChars [(1, 1, 97), (2, 2, 98), (3, 4, 100)]
              (NewTestState (runes ''abc'') False 0 1)"
  have s: "?s = \<lparr>Target = [97, 98, 99], Input = [97, 98, 100], StartTime = 1, EndTime = 4,
      Started = True, Finished = True, TimedMode = False, TimeLimitSec = 0, WordCount = 1,
      PipedText = []\<rparr>"
    by (simp add: NewTestState_def runes_def HandleChar_def Finish_def)
  have "Input ?s = runes ''abd''"
    unfolding s by (simp add: runes_def)
  moreover have "CorrectChars ?s = 2"
    unfolding s by (simp add: CorrectChars_def)
  moreover have "WrongChars ?s = 1"
    unfolding s by (simp add: WrongChars_def)
  ultimately show ?thesis
    using CorrectChars_card [of s] WrongChars_card [of s] by simp
qed

text \<open>
  C7. \<^verbatim>\<open>Accuracy\<close> returns the constant 100 when the input is empty, and otherwise
  the number of correct positions, divided by the length of the input, times 100, in
  that order of \<^verbatim>\<open>float64\<close> operations, whatever arithmetic \<open>F\<close> they are. In
  exact arithmetic a fresh session has accuracy 100, and the input \<^verbatim>\<open>"ax"\<close> against
  the target \<^verbatim>\<open>"abc"\<close> has accuracy 50.
\<close>

theorem accuracy_formula:
  "Accuracy F s =
     (if Input s = [] then f_of_int F 100
      else f_mul F
             (f_div F
                (f_of_int F (int (card {i. i < length (Input s) \<and> i < length (Target s) \<and>
                                          Input s ! i = Target s ! i})))
                (f_of_int F (int (length (Input s)))))
             (f_of_int F 100)) \<and>
   Accuracy real_ops (NewTestState (runes ''abc'') False 0 1) = 100 \<and>
   Accuracy real_ops ((NewTestState (runes ''abc'') True 30 0)\<lparr>Input := runes ''ax''\<rparr>) = 50"
proof -
  have "Accuracy real_ops (NewTestState (runes ''abc'') False 0 1) = 100"
    by (simp add: Accuracy_def NewTestState_def real_ops_def)
  moreover
  have "Accuracy real_ops ((NewTestState (runes ''abc'') True 30 0)\<lparr>Input := runes ''ax''\<rparr>)
      = 50"
    by (simp add: Accuracy_def NewTestState_def real_ops_def runes_def CorrectChars_def)
  ultimately show ?thesis
    by (simp add: Accuracy_def CorrectChars_card [symmetric])
qed

text \<open>
  C6. \<^verbatim>\<open>WPM\<close> returns 0 when the elapsed time in minutes compares equal to zero,
  and otherwise the number of correct positions divided by 5, divided by the elapsed
  minutes, in that order of \<^verbatim>\<open>float64\<close> operations, whatever arithmetic \<open>F\<close> they
  are. In exact arithmetic, with the minutes of a duration its nanoseconds over
  \<open>6 \<times> 10\<^sup>1\<^sup>0\<close>: zero elapsed time gives 0, and any other elapsed time gives the
  quotient.
\<close>

theorem wpm_formula:
  "WPM F now s =
     (if f_eq F (Minutes F (Elapsed now s)) (f_of_int F 0) then f_of_int F 0
      else f_div F
             (f_div F
                (f_of_int F (int (card {i. i < length (Input s) \<and> i < length (Target s) \<and>
                                          Input s ! i = Target s ! i})))
                (f_of_int F 5))
             (Minutes F (Elapsed now s))) \<and>
   (Elapsed now s = 0 \<longrightarrow> WPM real_ops now s = 0) \<and>
   (Elapsed now s \<noteq> 0 \<longrightarrow>
      WPM real_ops now s =
        (real (CorrectChars s) / 5) / (real_of_int (Elapsed now s) / 60000000000))"
  by (simp add: WPM_def real_ops_def CorrectChars_card [symmetric])

theorem wpm_formula_witness:
  "Elapsed 5 (NewTestState (runes ''abc'') False 0 1) = 0 \<and>
   WPM real_ops 5 (NewTestState (runes ''abc'') False 0 1) = 0 \<and>
   Elapsed 60000000001
     (HandleChars [(1, 1, 97), (2, 2, 98)] (NewTestState (runes ''abc'') True 60 0)) \<noteq> 0 \<and>
   WPM real_ops 60000000001
     (HandleChars [(1, 1, 97), (2, 2, 98)] (NewTestState (runes ''abc'') True 60 0)) = 2 / 5"
proof -
  let ?s = "HandleChars [(1, 1, 97), (2, 2, 98)] (NewTestState (runes ''abc'') True 60 0)"
  have s: "?s = \<lparr>Target = [97, 98, 99], Input = [97, 98], StartTime = 1, EndTime = 0,
      Started = True, Finished = False, TimedMode = True, TimeLimitSec = 60, WordCount = 0,
      PipedText = []\<rparr>"
    by (simp add: NewTestState_def runes_def HandleChar_def Finish_def)
  have e: "Elapsed 60000000001 ?s = 60000000000"
    unfolding s by (simp add: Elapsed_def Sub_def minDuration_def maxDuration_def)
  have c: "CorrectChars ?s = 2"
    unfolding s by (simp add: CorrectChars_def)
  have z: "Elapsed 5 (NewTestState (runes ''abc'') False 0 1) = 0"
    by (simp add: Elapsed_def NewTestState_def)
  have a: "WPM real_ops 5 (NewTestState (runes ''abc'') False 0 1) = 0"
    using wpm_formula [where F = real_ops and now = 5
        and s = "NewTestState (runes ''abc'') False 0 1", THEN conjunct2, THEN conjunct1] z
    by blast
  have b: "WPM real_ops 60000000001 ?s = 2 / 5"
    using wpm_formula [where F = real_ops and now = 60000000001 and s = ?s,
        THEN conjunct2, THEN conjunct2]
    unfolding e c by simp
  from a b e z show ?thesis
    by (simp only: simp_thms)
qed

text \<open>
  C8. \<^verbatim>\<open>HandleDeleteWord\<close> returns the state as it was when the session is finished
  or the input is empty. Otherwise it never panics, and the input becomes what the
  specification describes: the trailing spaces removed, then the trailing characters
  that are not spaces removed, up to the first space met or the start of the input. It
  maps \<^verbatim>\<open>"hello world "\<close> and \<^verbatim>\<open>"hello world"\<close> to \<^verbatim>\<open>"hello "\<close>, and
  \<^verbatim>\<open>"hello"\<close> to the empty input.
\<close>

theorem deleteWord_erases_last_word:
  "HandleDeleteWord s =
     Some (if Finished s \<or> Input s = [] then s
           else s\<lparr>Input := spec_deleteWord (Input s)\<rparr>) \<and>
   HandleDeleteWord
     ((NewTestState (runes ''hello world and more'') True 30 0)
        \<lparr>Input := runes ''hello world ''\<rparr>)
     = Some ((NewTestState (runes ''hello world and more'') True 30 0)
               \<lparr>Input := runes ''hello ''\<rparr>) \<and>
   HandleDeleteWord
     ((NewTestState (runes ''hello world and more'') True 30 0)
        \<lparr>Input := runes ''hello world''\<rparr>)
     = Some ((NewTestState (runes ''hello world and more'') True 30 0)
               \<lparr>Input := runes ''hello ''\<rparr>) \<and>
   HandleDeleteWord
     ((NewTestState (runes ''hello world and more'') True 30 0)
        \<lparr>Input := runes ''hello''\<rparr>)
     = Some ((NewTestState (runes ''hello world and more'') True 30 0)
               \<lparr>Input := runes ''''\<rparr>)"
proof -
  have "spec_deleteWord (runes ''hello world '') = runes ''hello ''"
    by (simp add: spec_deleteWord_def runes_def space_def)
  moreover have "spec_deleteWord (runes ''hello world'') = runes ''hello ''"
    by (simp add: spec_deleteWord_def runes_def space_def)
  moreover have "spec_deleteWord (runes ''hello'') = runes ''''"
    by (simp add: spec_deleteWord_def runes_def space_def)
  moreover have "runes ''hello world '' \<noteq> []" "runes ''hello world'' \<noteq> []"
    "runes ''hello'' \<noteq> []"
    by (simp_all add: runes_def)
  ultimately show ?thesis
    by (simp add: HandleDeleteWord_eq NewTestState_def)
qed



text \<open>
  C10. In a state whose input is no longer than the target, and so in every state that
  a run of operations from \<^verbatim>\<open>NewTestState\<close> reaches, \<^verbatim>\<open>CorrectChars\<close> and
  \<^verbatim>\<open>WrongChars\<close> add up to the length of the input; when the input is not empty,
  \<^verbatim>\<open>Accuracy\<close> is the correct count over the sum of the two counts, times 100.
\<close>

theorem correct_plus_wrong:
  "(length (Input s) \<le> length (Target s) \<longrightarrow>
      CorrectChars s + WrongChars s = length (Input s)) \<and>
   (run_events es (NewTestState target timedMode timeLimitSec wordCount) = Some sr \<longrightarrow>
      CorrectChars sr + WrongChars sr = length (Input sr) \<and>
      (Input sr \<noteq> [] \<longrightarrow>
         Accuracy F sr =
           f_mul F
             (f_div F (f_of_int F (int (CorrectChars sr)))
                (f_of_int F (int (CorrectChars sr + WrongChars sr))))
             (f_of_int F 100)))"
proof (intro conjI impI)
  assume "length (Input s) \<le> length (Target s)"
  then show "CorrectChars s + WrongChars s = length (Input s)"
    by (simp add: Correct_plus_Wrong)
next
  let ?s0 = "NewTestState target timedMode timeLimitSec wordCount"
  assume r: "run_events es ?s0 = Some sr"
  have "length (Input sr) \<le> length (Target sr)"
    by (rule run_events_length [OF r]) (simp add: NewTestState_def)
  then show sum: "CorrectChars sr + WrongChars sr = length (Input sr)"
    by (simp add: Correct_plus_Wrong)
  assume "Input sr \<noteq> []"
  then show "Accuracy F sr =
           f_mul F
             (f_div F (f_of_int F (int (CorrectChars sr)))
                (f_of_int F (int (CorrectChars sr + WrongChars sr))))
             (f_of_int F 100)"
    unfolding sum by (simp add: Accuracy_def)
qed

theorem correct_plus_wrong_witness:
  "run_events [TypeChar 1 1 97, TypeChar 2 2 120, TypeChar 3 3 121, Backspace]
     (NewTestState (runes ''abc'') True 30 0)
     = Some \<lparr>Target = [97, 98, 99], Input = [97, 120], StartTime = 1, EndTime = 0,
             Started = True, Finished = False, TimedMode = True, TimeLimitSec = 30,
             WordCount = 0, PipedText = []\<rparr> \<and>
   CorrectChars \<lparr>Target = [97, 98, 99], Input = [97, 120], StartTime = 1, EndTime = 0,
             Started = True, Finished = False, TimedMode = True, TimeLimitSec = 30,
             WordCount = 0, PipedText = []\<rparr> = 1 \<and>
   WrongChars \<lparr>Target = [97, 98, 99], Input = [97, 120], StartTime = 1, EndTime = 0,
             Started = True, Finished = False, TimedMode = True, TimeLimitSec = 30,
             WordCount = 0, PipedText = []\<rparr> = 1 \<and>
   Accuracy real_ops \<lparr>Target = [97, 98, 99], Input = [97, 120], StartTime = 1, EndTime = 0,
             Started = True, Finished = False, TimedMode = True, TimeLimitSec = 30,
             WordCount = 0, PipedText = []\<rparr> = 50"
proof -
  let ?sr = "\<lparr>Target = [97, 98, 99], Input = [97, 120], StartTime = 1, EndTime = 0,
             Started = True, Finished = False, TimedMode = True, TimeLimitSec = 30,
             WordCount = 0, PipedText = []\<rparr>"
  have r: "run_events [TypeChar 1 1 97, TypeChar 2 2 120, TypeChar 3 3 121, Backspace]
     (NewTestState (runes ''abc'') True 30 0) = Some ?sr"
    by (simp add: NewTestState_def runes_def HandleChar_def HandleBackspace_def
        slice_upto_def)
  have c: "CorrectChars ?sr = 1"
    by (simp add: CorrectChars_def)
  have w: "WrongChars ?sr = 1"
    by (simp add: WrongChars_def)
  have "Accuracy real_ops ?sr = 50"
    using correct_plus_wrong [where F = real_ops and sr = ?sr
        and es = "[TypeChar 1 1 97, TypeChar 2 2 120, TypeChar 3 3 121, Backspace]"
        and target = "runes ''abc''" and timedMode = True and timeLimitSec = 30
        and wordCount = 0, THEN conjunct2, rule_format, OF r, THEN conjunct2]
    unfolding c w by (simp add: real_ops_def)
  with r c w show ?thesis
    by (simp only: simp_thms)
qed

end
